theory Spec2Isabelle
  imports Main "HOL-Library.Word"
begin

section \<open>Data model of the render target\<close>

text \<open>
  The development embeds the batching and step-cache code of
  \<^verbatim>\<open>src/SFML/Graphics/RenderTarget.cpp\<close>: the two \<^verbatim>\<open>draw\<close> overloads that take
  raw vertices and a vertex buffer, \<^verbatim>\<open>clearOngoingStep\<close>, \<^verbatim>\<open>DrawStep::upload\<close>,
  the \<^verbatim>\<open>DrawStep\<close> destructor and \<^verbatim>\<open>flush\<close>.

  Scalars of the vertex buffer are C++ \<^verbatim>\<open>float\<close>s.  Their arithmetic is not modelled:
  the type of scalars is a type variable \<open>'f\<close>, and the floating-point operations the
  code applies are fields of an environment record (\<open>feq\<close> is the comparison
  \<^verbatim>\<open>==\<close> on floats, which need not be reflexive).
\<close>

datatype PrimitiveType = Points | Lines | LineStrip | Triangles | TriangleStrip | TriangleFan

text \<open>
  \<^verbatim>\<open>sf::BlendMode\<close>: four factors and two equations, as \<^verbatim>\<open>applyBlendMode\<close> reads them.
  The enumerators \<^verbatim>\<open>Zero\<close>, \<^verbatim>\<open>One\<close>, \<^verbatim>\<open>Min\<close> and \<^verbatim>\<open>Max\<close> carry a prefix here
  because HOL uses these names already.
\<close>

datatype Factor =
  FactorZero | FactorOne | SrcColor | OneMinusSrcColor | DstColor | OneMinusDstColor
  | SrcAlpha | OneMinusSrcAlpha | DstAlpha | OneMinusDstAlpha

datatype Equation = Add | Subtract | ReverseSubtract | EquationMin | EquationMax

record BlendMode =
  colorSrcFactor :: Factor
  colorDstFactor :: Factor
  colorEquation :: Equation
  alphaSrcFactor :: Factor
  alphaDstFactor :: Factor
  alphaEquation :: Equation

text \<open>Textures and shaders are held by pointer; a pointer is an address, null is \<open>None\<close>.\<close>

type_synonym addr = nat

text \<open>
  \<^verbatim>\<open>sf::RenderStates\<close>.  The transform is represented by its action on a point
  (\<^verbatim>\<open>states.transform * position\<close>).
\<close>

record 'f RenderStates =
  blendMode :: BlendMode
  transform :: "'f \<times> 'f \<Rightarrow> 'f \<times> 'f"
  texture :: "addr option"
  shader :: "addr option"

record Color =
  r :: "8 word"
  g :: "8 word"
  b :: "8 word"
  a :: "8 word"

record 'f Vertex =
  position :: "'f \<times> 'f"
  color :: Color
  texCoords :: "'f \<times> 'f"

record StepState =
  st_type :: PrimitiveType
  st_blendMode :: BlendMode
  st_texture :: "addr option"
  st_shader :: "addr option"

text \<open>
  \<^verbatim>\<open>DrawStep\<close>: \<open>vertices\<close> is a \<^verbatim>\<open>std::vector<float>\<close>, \<open>elements\<close> a
  \<^verbatim>\<open>std::vector<unsigned int>\<close>; \<open>vbo\<close>, \<open>vao\<close> and \<open>ebo\<close> are OpenGL object
  names, 0 meaning none.
\<close>

record 'f DrawStep =
  state :: StepState
  vertices :: "'f list"
  elements :: "32 word list"
  vbo :: nat
  vao :: nat
  ebo :: nat
  overruled :: bool

text \<open>The part of \<^verbatim>\<open>sf::VertexBuffer\<close> that \<^verbatim>\<open>draw\<close> reads through its getters.\<close>

record VertexBuffer =
  m_buffer :: nat
  m_size :: nat
  m_primitiveType :: PrimitiveType

subsection \<open>OpenGL as a log of calls\<close>

datatype GLtarget = GL_ARRAY_BUFFER | GL_ELEMENT_ARRAY_BUFFER

datatype GLmode =
  GL_POINTS | GL_LINES | GL_LINE_STRIP | GL_TRIANGLES | GL_TRIANGLE_STRIP | GL_TRIANGLE_FAN

text \<open>
  Every \<^verbatim>\<open>glCheck(...)\<close> of the modelled functions appends one entry to the log.
  \<open>GlGenBuffers n\<close> and \<open>GlGenVertexArrays n\<close> record the name \<open>n\<close> the call
  returned.  \<open>GlViewport\<close> and \<open>Shader_setUniform_viewport\<close> stand for calls
  whose arguments are floating-point functions of the view.
\<close>

datatype 'f gl_call =
  GlGenBuffers nat
  | GlDeleteBuffers nat
  | GlGenVertexArrays nat
  | GlDeleteVertexArrays nat
  | GlBindVertexArray nat
  | GlBindBuffer GLtarget nat
  | GlBufferData_float GLtarget "'f list"
  | GlBufferData_uint GLtarget "32 word list"
  | GlVertexAttribPointer nat nat nat
  | GlEnableVertexAttribArray nat
  | GlEnable_FRAMEBUFFER_SRGB
  | GlDisable_FRAMEBUFFER_SRGB
  | GlBlendFuncSeparate Factor Factor Factor Factor
  | GlBlendEquationSeparate Equation Equation
  | GlViewport
  | Shader_bind "addr option"
  | Shader_setUniform_viewport
  | GlDrawArrays GLmode nat nat

text \<open>
  What the code takes from outside the modelled file:
  \<^item> \<open>feq\<close>: \<^verbatim>\<open>==\<close> on \<^verbatim>\<open>float\<close>;
  \<^item> \<open>div255\<close>: \<^verbatim>\<open>c / 255.f\<close> for a colour channel \<^verbatim>\<open>c\<close>;
  \<^item> \<open>of_size\<close>: the conversion of a \<^verbatim>\<open>std::size_t\<close> to \<^verbatim>\<open>float\<close>;
  \<^item> \<open>glGen\<close>: the object name a \<^verbatim>\<open>glGen*\<close> call returns, as a function of the
    calls made so far;
  \<^item> \<open>RenderStates_Default\<close>: the constant \<^verbatim>\<open>RenderStates::Default\<close>;
  \<^item> \<open>BlendAlpha\<close>: the constant \<^verbatim>\<open>sf::BlendAlpha\<close>.
\<close>

record 'f env =
  feq :: "'f \<Rightarrow> 'f \<Rightarrow> bool"
  div255 :: "8 word \<Rightarrow> 'f"
  of_size :: "nat \<Rightarrow> 'f"
  glGen :: "'f gl_call list \<Rightarrow> nat"
  RenderStates_Default :: "'f RenderStates"
  BlendAlpha :: BlendMode

text \<open>
  The members of \<^verbatim>\<open>RenderTarget\<close> the batching code uses, the log of OpenGL calls, and
  \<open>active\<close>: whether this target is the active one of the current context
  (\<^verbatim>\<open>RenderTargetImpl::isActive(m_id)\<close>).
\<close>

record 'f RenderTarget =
  m_steps :: "'f DrawStep list"
  m_stepsIdx :: nat
  m_currentStep :: "'f DrawStep"
  m_defaultShader :: "addr option"
  active :: bool
  gl :: "'f gl_call list"

section \<open>Step states and draw steps\<close>

text \<open>\<^verbatim>\<open>StepState::StepState(PrimitiveType ptype, const RenderStates& rstates)\<close>\<close>

definition StepState_of :: "PrimitiveType \<Rightarrow> 'f RenderStates \<Rightarrow> StepState" where
  "StepState_of ptype rstates =
     \<lparr>st_type = ptype, st_blendMode = blendMode rstates,
      st_texture = texture rstates, st_shader = shader rstates\<rparr>"

text \<open>
  Modelled from the spec: \<^verbatim>\<open>operator==\<close> of \<^verbatim>\<open>sf::BlendMode\<close>, which is not among
  the sources.  The spec calls it a value comparison of the four factors and the two
  equations.
\<close>

definition BlendMode_eq :: "BlendMode \<Rightarrow> BlendMode \<Rightarrow> bool" where
  "BlendMode_eq x y \<longleftrightarrow>
     colorSrcFactor x = colorSrcFactor y \<and> colorDstFactor x = colorDstFactor y \<and>
     colorEquation x = colorEquation y \<and> alphaSrcFactor x = alphaSrcFactor y \<and>
     alphaDstFactor x = alphaDstFactor y \<and> alphaEquation x = alphaEquation y"

text \<open>\<^verbatim>\<open>StepState::operator==\<close>.  Texture and shader are compared as pointers.\<close>

definition StepState_eq :: "StepState \<Rightarrow> StepState \<Rightarrow> bool" where
  "StepState_eq x y \<longleftrightarrow>
     st_type x = st_type y \<and> BlendMode_eq (st_blendMode x) (st_blendMode y) \<and>
     st_texture x = st_texture y \<and> st_shader x = st_shader y"

text \<open>\<^verbatim>\<open>DrawStep::DrawStep()\<close>\<close>

definition DrawStep_default :: "'f env \<Rightarrow> 'f DrawStep" where
  "DrawStep_default env =
     \<lparr>state = StepState_of Points (RenderStates_Default env), vertices = [], elements = [],
      vbo = 0, vao = 0, ebo = 0, overruled = False\<rparr>"

text \<open>
  \<^verbatim>\<open>DrawStep::~DrawStep()\<close>: the OpenGL calls made when a step is destroyed.
\<close>

definition DrawStep_destroy :: "'f DrawStep \<Rightarrow> 'f gl_call list" where
  "DrawStep_destroy s =
     (if vbo s \<noteq> 0 then [GlDeleteBuffers (vbo s)] else []) @
     (if ebo s \<noteq> 0 then [GlDeleteBuffers (ebo s)] else []) @
     (if vao s \<noteq> 0 then [GlDeleteVertexArrays (vao s)] else [])"

text \<open>
  \<^verbatim>\<open>DrawStep::upload()\<close>: takes the step and the log, returns the step with its new
  object names and the extended log.
\<close>

definition upload :: "'f env \<Rightarrow> 'f DrawStep \<Rightarrow> 'f gl_call list \<Rightarrow> 'f DrawStep \<times> 'f gl_call list" where
  "upload env s l0 =
     (let l1 = l0 @ (if vbo s \<noteq> 0 then [GlDeleteBuffers (vbo s)] else []);
          new_vbo = glGen env l1;
          l2 = l1 @ [GlGenBuffers new_vbo];
          l3 = l2 @ (if ebo s \<noteq> 0 then [GlDeleteBuffers (ebo s)] else []);
          new_ebo = glGen env l3;
          l4 = l3 @ [GlGenBuffers new_ebo];
          l5 = l4 @ (if vao s \<noteq> 0 then [GlDeleteVertexArrays (vao s)] else []);
          new_vao = glGen env l5;
          l6 = l5 @ [GlGenVertexArrays new_vao, GlBindVertexArray new_vao,
                     GlBindBuffer GL_ARRAY_BUFFER new_vbo,
                     GlBufferData_float GL_ARRAY_BUFFER (vertices s),
                     GlBindBuffer GL_ELEMENT_ARRAY_BUFFER new_ebo,
                     GlBufferData_uint GL_ELEMENT_ARRAY_BUFFER (elements s),
                     GlVertexAttribPointer 0 2 0, GlEnableVertexAttribArray 0,
                     GlVertexAttribPointer 1 4 2, GlEnableVertexAttribArray 1,
                     GlVertexAttribPointer 2 2 6, GlEnableVertexAttribArray 2]
      in (s\<lparr>vbo := new_vbo, ebo := new_ebo, vao := new_vao\<rparr>, l6))"

section \<open>The step cache\<close>

text \<open>
  The comparison in \<^verbatim>\<open>clearOngoingStep\<close> of the cached step \<open>c\<close> with the open
  step \<open>s\<close>: \<^verbatim>\<open>operator==\<close> on the states and on the two pairs of vectors
  (equal sizes and element-wise \<^verbatim>\<open>==\<close>).
\<close>

definition step_matches :: "'f env \<Rightarrow> 'f DrawStep \<Rightarrow> 'f DrawStep \<Rightarrow> bool" where
  "step_matches env c s \<longleftrightarrow>
     StepState_eq (state c) (state s) \<and>
     list_all2 (feq env) (vertices c) (vertices s) \<and>
     elements c = elements s"

text \<open>
  The loop \<^verbatim>\<open>while (m_steps.size() > m_stepsIdx && m_steps[m_stepsIdx].overruled) m_stepsIdx++;\<close>
  as a function of the sequence and the cursor, returning the cursor.
\<close>

function skip_overruled :: "'f DrawStep list \<Rightarrow> nat \<Rightarrow> nat" where
  "skip_overruled steps i =
     (if length steps > i \<and> overruled (steps ! i) then skip_overruled steps (i + 1) else i)"
  by pat_completeness auto
termination
  by (relation "measure (\<lambda>(steps, i). length steps - i)") auto

declare skip_overruled.simps [simp del]

text \<open>The test \<^verbatim>\<open>m_currentStep.vertices.size() && m_currentStep.elements.size()\<close>.\<close>

definition has_geometry :: "'f DrawStep \<Rightarrow> bool" where
  "has_geometry s \<longleftrightarrow> length (vertices s) \<noteq> 0 \<and> length (elements s) \<noteq> 0"

text \<open>
  The first \<^verbatim>\<open>if\<close> of \<^verbatim>\<open>clearOngoingStep\<close>: validation of the open step against the
  cached step at the cursor.  Erasing the tail of \<^verbatim>\<open>m_steps\<close> destroys the erased
  steps.
\<close>

definition validate_step :: "'f env \<Rightarrow> 'f RenderTarget \<Rightarrow> 'f RenderTarget" where
  "validate_step env rt =
     (if length (m_steps rt) > m_stepsIdx rt then
        if step_matches env (m_steps rt ! m_stepsIdx rt) (m_currentStep rt) then
          rt\<lparr>m_currentStep := DrawStep_default env,
             m_stepsIdx := skip_overruled (m_steps rt) (m_stepsIdx rt + 1)\<rparr>
        else if has_geometry (m_currentStep rt) then
          rt\<lparr>m_steps := take (m_stepsIdx rt) (m_steps rt),
             gl := gl rt @ concat (map DrawStep_destroy (drop (m_stepsIdx rt) (m_steps rt)))\<rparr>
        else rt
      else rt)"

text \<open>
  The second \<^verbatim>\<open>if\<close>: upload and append.  \<^verbatim>\<open>emplace_back(std::move(m_currentStep))\<close>
  hands the object names to the new element.
\<close>

definition push_step :: "'f env \<Rightarrow> 'f RenderTarget \<Rightarrow> 'f RenderTarget" where
  "push_step env rt =
     (if has_geometry (m_currentStep rt) then
        (let (s, l) = upload env (m_currentStep rt) (gl rt)
         in rt\<lparr>m_steps := m_steps rt @ [s], m_currentStep := DrawStep_default env,
               m_stepsIdx := m_stepsIdx rt + 1, gl := l\<rparr>)
      else rt)"

text \<open>\<^verbatim>\<open>RenderTarget::clearOngoingStep\<close>: the two \<^verbatim>\<open>if\<close> statements in sequence.\<close>

definition clearOngoingStep :: "'f env \<Rightarrow> 'f RenderTarget \<Rightarrow> 'f RenderTarget" where
  "clearOngoingStep env rt = push_step env (validate_step env rt)"

section \<open>Drawing raw vertices\<close>

text \<open>\<^verbatim>\<open>RenderTargetImpl::minVertexCount\<close>\<close>

definition minVertexCount :: "PrimitiveType \<Rightarrow> nat" where
  "minVertexCount ptype =
     (case ptype of
        Points \<Rightarrow> 1
      | Lines \<Rightarrow> 2
      | LineStrip \<Rightarrow> 2
      | Triangles \<Rightarrow> 3
      | TriangleStrip \<Rightarrow> 3
      | TriangleFan \<Rightarrow> 3)"

text \<open>
  \<^verbatim>\<open>RenderTarget::setActive\<close> records the target in (or erases it from) the map of
  active targets and returns \<^verbatim>\<open>true\<close>.  \<open>ensure_active\<close> is the condition
  \<^verbatim>\<open>RenderTargetImpl::isActive(m_id) || setActive(true)\<close> with its effect.
\<close>

definition setActive :: "bool \<Rightarrow> 'f RenderTarget \<Rightarrow> bool \<times> 'f RenderTarget" where
  "setActive act rt = (True, rt\<lparr>active := act\<rparr>)"

definition ensure_active :: "'f RenderTarget \<Rightarrow> bool \<times> 'f RenderTarget" where
  "ensure_active rt = (if active rt then (True, rt) else setActive True rt)"

text \<open>
  The computation of \<^verbatim>\<open>new_type\<close> in \<^verbatim>\<open>draw\<close>.  In the branch for
  \<^verbatim>\<open>TriangleStrip\<close> and \<^verbatim>\<open>TriangleFan\<close> the source has the statement
  \<^verbatim>\<open>new_type == Triangles;\<close>, a comparison whose value is dropped, so \<^verbatim>\<open>new_type\<close>
  keeps its initial value \<^verbatim>\<open>type\<close>.
\<close>

definition new_type_of :: "PrimitiveType \<Rightarrow> PrimitiveType" where
  "new_type_of ptype =
     (if ptype = LineStrip then Lines
      else if ptype = TriangleStrip \<or> ptype = TriangleFan then ptype
      else ptype)"

text \<open>
  The state transition of \<^verbatim>\<open>draw\<close>:
  \<^verbatim>\<open>if (m_currentStep.state != new_state) { clearOngoingStep(); m_currentStep.state = new_state; }\<close>
\<close>

definition switch_state :: "'f env \<Rightarrow> StepState \<Rightarrow> 'f RenderTarget \<Rightarrow> 'f RenderTarget" where
  "switch_state env new_state rt =
     (if \<not> StepState_eq (state (m_currentStep rt)) new_state then
        (let rt' = clearOngoingStep env rt
         in rt'\<lparr>m_currentStep := (m_currentStep rt')\<lparr>state := new_state\<rparr>\<rparr>)
      else rt)"

text \<open>The eight scalars appended for one vertex: x y, r g b a, s t.\<close>

definition packed :: "'f env \<Rightarrow> 'f RenderStates \<Rightarrow> 'f Vertex \<Rightarrow> 'f list" where
  "packed env states v =
     (let p = transform states (position v)
      in [fst p, snd p,
          div255 env (r (color v)), div255 env (g (color v)),
          div255 env (b (color v)), div255 env (a (color v)),
          fst (texCoords v), snd (texCoords v)])"

text \<open>
  The index \<^verbatim>\<open>verts.size() / (2 + 4 + 2)\<close>, computed as a \<^verbatim>\<open>std::size_t\<close> and
  narrowed to \<^verbatim>\<open>unsigned int\<close> when stored; \<^verbatim>\<open>verts.size() / (2 + 4 + 2) - 1\<close> is
  the same number minus one modulo \<open>2 ^ 32\<close>.
\<close>

definition next_index :: "'f DrawStep \<Rightarrow> 32 word" where
  "next_index s = of_nat (length (vertices s) div (2 + 4 + 2))"

text \<open>
  The three loops over \<^verbatim>\<open>i = 0 .. vertexCount - 1\<close>, as recursion over the
  vertices \<^verbatim>\<open>vertices[0 .. vertexCount - 1]\<close>; \<open>i\<close> is the loop counter.
\<close>

fun loop_direct :: "'f env \<Rightarrow> 'f RenderStates \<Rightarrow> 'f Vertex list \<Rightarrow> 'f DrawStep \<Rightarrow> 'f DrawStep" where
  "loop_direct env states [] s = s"
| "loop_direct env states (v # vs) s =
     loop_direct env states vs
       (s\<lparr>elements := elements s @ [next_index s],
          vertices := vertices s @ packed env states v\<rparr>)"

fun loop_LineStrip ::
  "'f env \<Rightarrow> 'f RenderStates \<Rightarrow> nat \<Rightarrow> 'f Vertex list \<Rightarrow> 'f DrawStep \<Rightarrow> 'f DrawStep" where
  "loop_LineStrip env states i [] s = s"
| "loop_LineStrip env states i (v # vs) s =
     loop_LineStrip env states (i + 1) vs
       (s\<lparr>elements := (if i > 0 then elements s @ [next_index s - 1, next_index s]
                        else elements s),
          vertices := vertices s @ packed env states v\<rparr>)"

fun loop_TriangleFan ::
  "'f env \<Rightarrow> 'f RenderStates \<Rightarrow> nat \<Rightarrow> nat \<Rightarrow> 'f Vertex list \<Rightarrow> 'f DrawStep \<Rightarrow> 'f DrawStep" where
  "loop_TriangleFan env states root i [] s = s"
| "loop_TriangleFan env states root i (v # vs) s =
     loop_TriangleFan env states root (i + 1) vs
       (s\<lparr>elements := (if i > 2 then elements s @ [of_nat root, next_index s - 1, next_index s]
                        else elements s),
          vertices := vertices s @ packed env states v\<rparr>)"

text \<open>
  The chain of branches on \<^verbatim>\<open>type\<close>.  The loop of the \<^verbatim>\<open>TriangleStrip\<close> branch has
  no body in the source, so that branch leaves the step as it is.
\<close>

definition append_geometry ::
  "'f env \<Rightarrow> PrimitiveType \<Rightarrow> 'f RenderStates \<Rightarrow> 'f Vertex list \<Rightarrow> 'f DrawStep \<Rightarrow> 'f DrawStep" where
  "append_geometry env ptype states vs s =
     (if ptype = Points \<or> ptype = Lines \<or> ptype = Triangles then loop_direct env states vs s
      else if ptype = LineStrip then loop_LineStrip env states 0 vs s
      else if ptype = TriangleStrip then s
      else if ptype = TriangleFan then
        loop_TriangleFan env states (length (vertices s) div (2 + 4 + 2)) 0 vs s
      else s)"

text \<open>
  \<^verbatim>\<open>RenderTarget::draw(const Vertex* vertices, std::size_t vertexCount, PrimitiveType type,
  const RenderStates& states)\<close>.  The pointer is \<open>None\<close> when null and \<open>Some vs\<close> when
  it points to the array \<open>vs\<close>; the code reads \<^verbatim>\<open>vertices[0 .. vertexCount - 1]\<close>,
  which C++ leaves undefined beyond the array, and the model reads \<open>take vertexCount vs\<close>.
\<close>

definition draw ::
  "'f env \<Rightarrow> 'f Vertex list option \<Rightarrow> nat \<Rightarrow> PrimitiveType \<Rightarrow> 'f RenderStates \<Rightarrow>
   'f RenderTarget \<Rightarrow> 'f RenderTarget" where
  "draw env vertices_ptr vertexCount ptype states rt =
     (case vertices_ptr of
        None \<Rightarrow> rt
      | Some vs \<Rightarrow>
          if vertexCount < minVertexCount ptype then rt
          else
            (let (ok, rt0) = ensure_active rt
             in if ok then
                  (let new_state = StepState_of (new_type_of ptype) states;
                       rt1 = switch_state env new_state rt0
                   in rt1\<lparr>m_currentStep :=
                            append_geometry env ptype states (take vertexCount vs)
                              (m_currentStep rt1)\<rparr>)
                else rt0))"

section \<open>Drawing a vertex buffer\<close>

text \<open>
  \<^verbatim>\<open>RenderTarget::draw(const VertexBuffer& vertexBuffer, std::size_t firstVertex,
  std::size_t vertexCount, const RenderStates& states)\<close>
\<close>

definition draw_VertexBuffer ::
  "'f env \<Rightarrow> VertexBuffer \<Rightarrow> nat \<Rightarrow> nat \<Rightarrow> 'f RenderStates \<Rightarrow>
   'f RenderTarget \<Rightarrow> 'f RenderTarget" where
  "draw_VertexBuffer env vertexBuffer firstVertex vertexCount states rt =
     (if firstVertex > m_size vertexBuffer then rt
      else
        (let vertexCount' = min vertexCount (m_size vertexBuffer - firstVertex)
         in if vertexCount' = 0 \<or> m_buffer vertexBuffer = 0 then rt
            else
              (let (ok, rt0) = ensure_active rt
               in if ok then
                    (let rt1 = clearOngoingStep env rt0;
                         step = (m_currentStep rt1)
                           \<lparr>state := StepState_of (m_primitiveType vertexBuffer) states,
                            vbo := m_buffer vertexBuffer,
                            overruled := True,
                            vertices := vertices (m_currentStep rt1) @
                              [of_size env firstVertex, of_size env vertexCount']\<rparr>
                     in rt1\<lparr>m_steps := m_steps rt1 @ [step],
                            m_stepsIdx := m_stepsIdx rt1 + 1,
                            m_currentStep := DrawStep_default env\<rparr>)
                  else rt0)))"

section \<open>Replaying the cache\<close>

text \<open>\<^verbatim>\<open>RenderTarget::isSrgb\<close>\<close>

definition isSrgb :: bool where
  "isSrgb = False"

text \<open>
  \<^verbatim>\<open>RenderTarget::applyBlendMode\<close>; the log keeps the enumerators that
  \<^verbatim>\<open>factorToGlConstant\<close> and \<^verbatim>\<open>equationToGlConstant\<close> translate.
\<close>

definition applyBlendMode :: "BlendMode \<Rightarrow> 'f gl_call list" where
  "applyBlendMode mode =
     [GlBlendFuncSeparate (colorSrcFactor mode) (colorDstFactor mode)
        (alphaSrcFactor mode) (alphaDstFactor mode),
      GlBlendEquationSeparate (colorEquation mode) (alphaEquation mode)]"

text \<open>The table \<^verbatim>\<open>modes\<close> of \<^verbatim>\<open>flush\<close>, indexed by the primitive type.\<close>

definition modes :: "PrimitiveType \<Rightarrow> GLmode" where
  "modes ptype =
     (case ptype of
        Points \<Rightarrow> GL_POINTS
      | Lines \<Rightarrow> GL_LINES
      | LineStrip \<Rightarrow> GL_LINE_STRIP
      | Triangles \<Rightarrow> GL_TRIANGLES
      | TriangleStrip \<Rightarrow> GL_TRIANGLE_STRIP
      | TriangleFan \<Rightarrow> GL_TRIANGLE_FAN)"

text \<open>The body of the loop over \<^verbatim>\<open>m_steps\<close> in \<^verbatim>\<open>flush\<close>: one draw invocation.\<close>

definition draw_invocation :: "'f DrawStep \<Rightarrow> 'f gl_call list" where
  "draw_invocation step =
     [GlBindVertexArray (vao step),
      GlDrawArrays (modes (st_type (state step))) 0 (length (vertices step) div 8)]"

text \<open>The calls of \<^verbatim>\<open>flush\<close> after the open step is closed and the cursor reset.\<close>

definition replay :: "'f env \<Rightarrow> addr option \<Rightarrow> 'f DrawStep list \<Rightarrow> 'f gl_call list" where
  "replay env currentShader steps =
     (if isSrgb then [GlEnable_FRAMEBUFFER_SRGB] else [GlDisable_FRAMEBUFFER_SRGB]) @
     applyBlendMode (BlendAlpha env) @
     [GlViewport, Shader_bind currentShader, Shader_setUniform_viewport] @
     concat (map draw_invocation steps) @
     [Shader_bind None]"

text \<open>\<^verbatim>\<open>RenderTarget::flush\<close>\<close>

definition flush :: "'f env \<Rightarrow> 'f RenderTarget \<Rightarrow> 'f RenderTarget" where
  "flush env rt =
     (let rt1 = (clearOngoingStep env rt)\<lparr>m_stepsIdx := 0\<rparr>;
          (ok, rt2) = ensure_active rt1
      in if ok then rt2\<lparr>gl := gl rt2 @ replay env (m_defaultShader rt2) (m_steps rt2)\<rparr>
         else rt2)"

section \<open>Frames and uploads\<close>



text \<open>
  An upload is counted by its \<^verbatim>\<open>glBufferData\<close> call for the vertex data; \<open>uploads\<close>
  counts these calls in a log.
\<close>

definition is_upload :: "'f gl_call \<Rightarrow> bool" where
  "is_upload c = (case c of GlBufferData_float t d \<Rightarrow> True | _ \<Rightarrow> False)"

definition uploads :: "'f gl_call list \<Rightarrow> nat" where
  "uploads l = length (filter is_upload l)"


text \<open>
  Claim C6 in its own words, for comparison with the code: the root is the index of the
  first vertex appended to the batch, which is 0; a call that finds \<open>before\<close>
  vertices in the batch and appends \<open>n\<close> more appends, for each of its vertices
  \<open>i\<close> (counted in the accumulated sequence) beyond the second, the triple of the
  root, the index of vertex \<open>i - 1\<close> and the index of vertex \<open>i\<close>.
\<close>

definition claimed_TriangleFan_elements :: "nat \<Rightarrow> nat \<Rightarrow> 32 word list" where
  "claimed_TriangleFan_elements before n =
     concat (map (\<lambda>i. [0, of_nat (i - 1), of_nat i])
               (filter (\<lambda>i. 2 \<le> i) [before..<before + n]))"

section \<open>Example inputs\<close>

text \<open>
  Concrete inputs on which the theorems below are instantiated.  Scalars are integers
  there, compared by equality; object names are handed out by the length of the log.
\<close>

definition example_blend :: BlendMode where
  "example_blend =
     \<lparr>colorSrcFactor = SrcAlpha, colorDstFactor = OneMinusSrcAlpha, colorEquation = Add,
      alphaSrcFactor = FactorOne, alphaDstFactor = OneMinusSrcAlpha, alphaEquation = Add\<rparr>"

definition example_states :: "addr option \<Rightarrow> int RenderStates" where
  "example_states tex =
     \<lparr>blendMode = example_blend, transform = (\<lambda>p. p), texture = tex, shader = None\<rparr>"

definition example_env :: "int env" where
  "example_env =
     \<lparr>feq = (=), div255 = (\<lambda>c. uint c), of_size = int, glGen = (\<lambda>l. length l + 1),
      RenderStates_Default = example_states None, BlendAlpha = example_blend\<rparr>"

definition example_vertex :: "int \<Rightarrow> int Vertex" where
  "example_vertex n =
     \<lparr>position = (n, n + 1), color = \<lparr>r = 255, g = 0, b = 0, a = 255\<rparr>, texCoords = (0, 0)\<rparr>"

text \<open>A target as the constructor leaves it: empty cache, cursor 0, default open step.\<close>

definition example_target :: "int RenderTarget" where
  "example_target =
     \<lparr>m_steps = [], m_stepsIdx = 0, m_currentStep = DrawStep_default example_env,
      m_defaultShader = Some 1, active = False, gl = []\<rparr>"

text \<open>A closed batch of one point drawn with texture \<open>tex\<close> at position \<open>n\<close>.\<close>

definition example_batch :: "nat \<Rightarrow> int \<Rightarrow> int DrawStep" where
  "example_batch tex n =
     \<lparr>state = StepState_of Points (example_states (Some tex)),
      vertices = packed example_env (example_states (Some tex)) (example_vertex n),
      elements = [0], vbo = 0, vao = 0, ebo = 0, overruled = False\<rparr>"

text \<open>The same batch as it sits in the cache after an upload, with object names.\<close>

definition example_cached :: "nat \<Rightarrow> int \<Rightarrow> nat \<Rightarrow> int DrawStep" where
  "example_cached tex n name =
     (example_batch tex n)\<lparr>vbo := name, ebo := name + 1, vao := name + 2\<rparr>"

text \<open>An overruled step as \<^verbatim>\<open>draw\<close> of a vertex buffer leaves it in the cache.\<close>

definition example_overruled :: "nat \<Rightarrow> int DrawStep" where
  "example_overruled name =
     \<lparr>state = StepState_of Triangles (example_states None), vertices = [0, 3], elements = [],
      vbo = name, vao = 0, ebo = 0, overruled = True\<rparr>"

text \<open>
  A target at the start of a frame whose open step repeats the first cached batch; two
  overruled steps follow that batch in the cache.
\<close>

definition example_hit :: "int RenderTarget" where
  "example_hit =
     \<lparr>m_steps = [example_cached 7 0 1, example_overruled 9, example_overruled 9,
                 example_cached 8 1 4],
      m_stepsIdx = 0, m_currentStep = example_batch 7 0,
      m_defaultShader = Some 1, active = True, gl = []\<rparr>"

text \<open>
  The target after a first frame that drew one point with texture 7 and was flushed:
  one cached batch, cursor 0, an empty open step.
\<close>

definition example_flushed :: "int RenderTarget" where
  "example_flushed =
     flush example_env
       (draw example_env (Some [example_vertex 0]) 1 Points (example_states (Some 7))
          example_target)"

text \<open>One point drawn with texture 7 on a fresh target and not yet flushed.\<close>

definition example_pending :: "int RenderTarget" where
  "example_pending =
     draw example_env (Some [example_vertex 0]) 1 Points (example_states (Some 7))
       example_target"




text \<open>
  One \<open>TriangleFan\<close> call with four vertices on a fresh target, and a second one with
  the same render states right after it.
\<close>

definition example_fan :: "int RenderTarget" where
  "example_fan =
     draw example_env (Some (map example_vertex [0, 1, 2, 3])) 4 TriangleFan
       (example_states (Some 7)) example_target"

definition example_two_fans :: "int RenderTarget" where
  "example_two_fans =
     draw example_env (Some (map example_vertex [4, 5, 6, 7])) 4 TriangleFan
       (example_states (Some 7)) example_fan"

text \<open>
  A \<open>TriangleFan\<close> call with exactly three vertices and texture 7, followed by a
  \<open>Points\<close> call with two vertices and texture 8.
\<close>

definition example_fan_then_points :: "int RenderTarget" where
  "example_fan_then_points =
     draw example_env (Some (map example_vertex [8, 9])) 2 Points (example_states (Some 8))
       (draw example_env (Some (map example_vertex [0, 1, 2])) 3 TriangleFan
          (example_states (Some 7)) example_target)"

text \<open>A vertex buffer of ten vertices with a native handle.\<close>

definition example_buffer :: VertexBuffer where
  "example_buffer = \<lparr>m_buffer = 9, m_size = 10, m_primitiveType = Triangles\<rparr>"

text \<open>
  A first frame draws a point with texture 7 and a point with texture 8 and is flushed;
  the second frame has drawn the first point again, which is its open step.
\<close>

definition example_redraw :: "int RenderTarget" where
  "example_redraw =
     draw example_env (Some [example_vertex 0]) 1 Points (example_states (Some 7))
       (flush example_env
          (draw example_env (Some [example_vertex 1]) 1 Points (example_states (Some 8))
             (draw example_env (Some [example_vertex 0]) 1 Points (example_states (Some 7))
                example_target)))"

text \<open>
  A frame that draws a point with texture 7, then the vertex buffer, then a point with
  texture 8, and is flushed.
\<close>

definition example_buffer_frame :: "int RenderTarget \<Rightarrow> int RenderTarget" where
  "example_buffer_frame rt =
     flush example_env
       (draw example_env (Some [example_vertex 1]) 1 Points (example_states (Some 8))
          (draw_VertexBuffer example_env example_buffer 2 100 (example_states None)
             (draw example_env (Some [example_vertex 0]) 1 Points (example_states (Some 7))
                rt)))"

section \<open>Properties\<close>

subsection \<open>Auxiliary facts\<close>

lemma skip_overruled_ge: "i \<le> skip_overruled steps i"
proof (induction steps i rule: skip_overruled.induct)
  case (1 steps i)
  show ?case
  proof (cases "length steps > i \<and> overruled (steps ! i)")
    case True
    with "1" have "i + 1 \<le> skip_overruled steps (i + 1)" by simp
    with True show ?thesis by (subst skip_overruled.simps) simp
  next
    case False
    then show ?thesis by (subst skip_overruled.simps) auto
  qed
qed

lemma skip_overruled_le: "i \<le> length steps \<Longrightarrow> skip_overruled steps i \<le> length steps"
proof (induction steps i rule: skip_overruled.induct)
  case (1 steps i)
  show ?case
  proof (cases "length steps > i \<and> overruled (steps ! i)")
    case True
    with "1" have "skip_overruled steps (i + 1) \<le> length steps" by simp
    with True show ?thesis by (subst skip_overruled.simps) simp
  next
    case False
    with "1.prems" show ?thesis by (subst skip_overruled.simps) auto
  qed
qed

lemma skip_overruled_skipped:
  "i \<le> k \<Longrightarrow> k < skip_overruled steps i \<Longrightarrow> overruled (steps ! k)"
proof (induction steps i rule: skip_overruled.induct)
  case (1 steps i)
  show ?case
  proof (cases "length steps > i \<and> overruled (steps ! i)")
    case True
    then have eq: "skip_overruled steps i = skip_overruled steps (i + 1)"
      by (subst skip_overruled.simps) simp
    show ?thesis
    proof (cases "k = i")
      case True
      with \<open>length steps > i \<and> overruled (steps ! i)\<close> show ?thesis by simp
    next
      case False
      with "1.prems" eq have "i + 1 \<le> k" "k < skip_overruled steps (i + 1)" by simp_all
      with "1.IH" \<open>length steps > i \<and> overruled (steps ! i)\<close> show ?thesis by blast
    qed
  next
    case False
    then have "skip_overruled steps i = i" by (subst skip_overruled.simps) auto
    with "1.prems" show ?thesis by simp
  qed
qed

lemma skip_overruled_stop:
  "skip_overruled steps i < length steps \<Longrightarrow> \<not> overruled (steps ! skip_overruled steps i)"
proof (induction steps i rule: skip_overruled.induct)
  case (1 steps i)
  show ?case
  proof (cases "length steps > i \<and> overruled (steps ! i)")
    case True
    then have eq: "skip_overruled steps i = skip_overruled steps (i + 1)"
      by (subst skip_overruled.simps) simp
    with "1.IH" True "1.prems" show ?thesis by simp
  next
    case False
    then have eq: "skip_overruled steps i = i" by (subst skip_overruled.simps) auto
    with False "1.prems" show ?thesis by auto
  qed
qed

lemma ensure_active_eq: "ensure_active rt = (True, rt\<lparr>active := True\<rparr>)"
  by (cases "active rt") (simp_all add: ensure_active_def setActive_def)

lemma has_geometry_default [simp]: "\<not> has_geometry (DrawStep_default env)"
  by (simp add: has_geometry_def DrawStep_default_def)

lemma uploads_append [simp]: "uploads (xs @ ys) = uploads xs + uploads ys"
  by (simp add: uploads_def)

lemma uploads_destroy [simp]: "uploads (concat (map DrawStep_destroy xs)) = 0"
  by (induction xs) (simp_all add: uploads_def DrawStep_destroy_def is_upload_def)

lemma uploads_replay [simp]: "uploads (replay env sh steps) = 0"
proof -
  have "uploads (concat (map draw_invocation steps)) = 0"
    by (induction steps) (simp_all add: uploads_def draw_invocation_def is_upload_def)
  then show ?thesis
    by (simp add: replay_def applyBlendMode_def) (simp add: uploads_def is_upload_def)
qed



lemma clearOngoingStep_no_geometry_after:
  "\<not> has_geometry (m_currentStep (clearOngoingStep env rt))"
  by (simp add: clearOngoingStep_def push_step_def validate_step_def split_beta)

lemma clearOngoingStep_without_geometry:
  assumes "\<not> has_geometry (m_currentStep rt)"
  shows "m_steps (clearOngoingStep env rt) = m_steps rt"
    and "gl (clearOngoingStep env rt) = gl rt"
  using assms by (simp_all add: clearOngoingStep_def push_step_def validate_step_def)

lemma clearOngoingStep_defaultShader [simp]:
  "m_defaultShader (clearOngoingStep env rt) = m_defaultShader rt"
  by (simp add: clearOngoingStep_def push_step_def validate_step_def split_beta)

lemma flush_eq:
  "flush env rt =
     (clearOngoingStep env rt)
       \<lparr>m_stepsIdx := 0, active := True,
        gl := gl (clearOngoingStep env rt) @
              replay env (m_defaultShader rt) (m_steps (clearOngoingStep env rt))\<rparr>"
  by (simp add: flush_def ensure_active_eq)









lemma length_packed [simp]: "length (packed env states v) = 8"
  by (simp add: packed_def Let_def)

lemma loop_LineStrip_vertices:
  "vertices (loop_LineStrip env states i vs s) =
     vertices s @ concat (map (packed env states) vs)"
  by (induction vs arbitrary: i s) simp_all

lemma loop_TriangleFan_vertices:
  "vertices (loop_TriangleFan env states root i vs s) =
     vertices s @ concat (map (packed env states) vs)"
  by (induction vs arbitrary: i s) simp_all

lemma loop_direct_vertices:
  "vertices (loop_direct env states vs s) =
     vertices s @ concat (map (packed env states) vs)"
  by (induction vs arbitrary: s) simp_all

lemma upt_0_Suc: "[0..<Suc n] = 0 # [Suc 0..<Suc n]"
  by (rule upt_conv_Cons) simp

lemma upt_shift: "map (\<lambda>j. f (Suc j)) [m..<n] = map f [Suc m..<Suc n]"
proof -
  have "map (\<lambda>j. f (Suc j)) [m..<n] = map f (map Suc [m..<n])" by simp
  also have "map Suc [m..<n] = [Suc m..<Suc n]" by (rule map_Suc_upt)
  finally show ?thesis .
qed

lemma loop_LineStrip_elements:
  "elements (loop_LineStrip env states i vs s) =
     elements s @
     concat (map (\<lambda>j. [of_nat (length (vertices s) div 8 + j) - 1,
                         of_nat (length (vertices s) div 8 + j)])
              [(if i > 0 then 0 else 1)..<length vs])"
proof (induction vs arbitrary: i s)
  case Nil
  then show ?case by simp
next
  case (Cons v vs)
  let ?B = "length (vertices s) div 8"
  let ?f = "\<lambda>j. [of_nat (?B + j) - 1, of_nat (?B + j) :: 32 word]"
  let ?s' = "s\<lparr>elements := (if i > 0 then elements s @ [next_index s - 1, next_index s]
                              else elements s),
               vertices := vertices s @ packed env states v\<rparr>"
  have B': "length (vertices ?s') div 8 = Suc ?B" by simp
  have "elements (loop_LineStrip env states i (v # vs) s) =
        elements (loop_LineStrip env states (i + 1) vs ?s')" by simp
  also have "\<dots> = elements ?s' @ concat (map (\<lambda>j. ?f (Suc j)) [0..<length vs])"
    by (subst Cons.IH) (simp only: B' add_Suc if_True, simp)
  also have "map (\<lambda>j. ?f (Suc j)) [0..<length vs] = map ?f [Suc 0..<Suc (length vs)]"
    by (rule upt_shift)
  also have "elements ?s' @ concat (map ?f [Suc 0..<Suc (length vs)]) =
      elements s @ concat (map ?f [(if i > 0 then 0 else 1)..<Suc (length vs)])"
    by (simp add: upt_0_Suc next_index_def del: upt_Suc)
  finally show ?case by simp
qed

lemma loop_TriangleFan_elements:
  "elements (loop_TriangleFan env states root i vs s) =
     elements s @
     concat (map (\<lambda>j. [of_nat root, of_nat (length (vertices s) div 8 + j) - 1,
                         of_nat (length (vertices s) div 8 + j)])
              [3 - i..<length vs])"
proof (induction vs arbitrary: i s)
  case Nil
  then show ?case by simp
next
  case (Cons v vs)
  let ?B = "length (vertices s) div 8"
  let ?f = "\<lambda>j. [of_nat root, of_nat (?B + j) - 1, of_nat (?B + j) :: 32 word]"
  let ?s' = "s\<lparr>elements := (if i > 2 then elements s @ [of_nat root, next_index s - 1, next_index s]
                              else elements s),
               vertices := vertices s @ packed env states v\<rparr>"
  have B': "length (vertices ?s') div 8 = Suc ?B" by simp
  have "elements (loop_TriangleFan env states root i (v # vs) s) =
        elements (loop_TriangleFan env states root (i + 1) vs ?s')" by simp
  also have "\<dots> = elements ?s' @ concat (map (\<lambda>j. ?f (Suc j)) [3 - (i + 1)..<length vs])"
    by (subst Cons.IH) (simp only: B' add_Suc, simp)
  also have "map (\<lambda>j. ?f (Suc j)) [3 - (i + 1)..<length vs] =
      map ?f [Suc (3 - (i + 1))..<Suc (length vs)]"
    by (rule upt_shift)
  also have "elements ?s' @ concat (map ?f [Suc (3 - (i + 1))..<Suc (length vs)]) =
      elements s @ concat (map ?f [3 - i..<Suc (length vs)])"
  proof (cases "i > 2")
    case True
    then have "3 - i = 0" "Suc (3 - (i + 1)) = Suc 0" by simp_all
    with True show ?thesis by (simp add: upt_0_Suc next_index_def del: upt_Suc)
  next
    case False
    then have "Suc (3 - (i + 1)) = 3 - i" by simp
    with False show ?thesis by (simp del: upt_Suc)
  qed
  finally show ?case by simp
qed

lemma of_nat_pred: "0 < n \<Longrightarrow> (of_nat n :: 32 word) - 1 = of_nat (n - 1)"
  by (cases n) simp_all

lemma draw_eq:
  assumes "minVertexCount ptype \<le> vertexCount"
  shows "draw env (Some vs) vertexCount ptype states rt =
     (switch_state env (StepState_of (new_type_of ptype) states) (rt\<lparr>active := True\<rparr>))
       \<lparr>m_currentStep :=
          append_geometry env ptype states (take vertexCount vs)
            (m_currentStep
              (switch_state env (StepState_of (new_type_of ptype) states)
                 (rt\<lparr>active := True\<rparr>)))\<rparr>"
  using assms by (simp add: draw_def ensure_active_eq Let_def)

lemma switch_state_empty:
  assumes "vertices (m_currentStep rt) = []" and "elements (m_currentStep rt) = []"
  shows "vertices (m_currentStep (switch_state env st rt)) = [] \<and>
         elements (m_currentStep (switch_state env st rt)) = []"
  using assms
  by (simp add: switch_state_def Let_def clearOngoingStep_def push_step_def
      validate_step_def has_geometry_def DrawStep_default_def)

lemma BlendMode_eq_iff: "BlendMode_eq x y \<longleftrightarrow> x = y"
  by (cases x, cases y) (auto simp: BlendMode_eq_def)

lemma StepState_eq_iff: "StepState_eq x y \<longleftrightarrow> x = y"
  by (cases x, cases y) (auto simp: StepState_eq_def BlendMode_eq_iff)

lemma loop_direct_state [simp]: "state (loop_direct env states vs s) = state s"
  by (induction vs arbitrary: s) simp_all

lemma loop_LineStrip_state [simp]: "state (loop_LineStrip env states i vs s) = state s"
  by (induction vs arbitrary: i s) simp_all

lemma loop_TriangleFan_state [simp]:
  "state (loop_TriangleFan env states root i vs s) = state s"
  by (induction vs arbitrary: i s) simp_all

lemma append_geometry_state [simp]:
  "state (append_geometry env ptype states vs s) = state s"
  by (simp add: append_geometry_def)

lemma switch_state_state [simp]: "state (m_currentStep (switch_state env st rt)) = st"
  by (simp add: switch_state_def Let_def StepState_eq_iff)

lemma draw_sets_state:
  assumes "minVertexCount ptype \<le> vertexCount"
  shows "state (m_currentStep (draw env (Some vs) vertexCount ptype states rt)) =
           StepState_of (new_type_of ptype) states"
  by (simp add: draw_eq [OF assms])

lemma clearOngoingStep_leaves_no_vertices:
  assumes "vertices (m_currentStep rt) = [] \<or> elements (m_currentStep rt) \<noteq> []"
  shows "vertices (m_currentStep (clearOngoingStep env rt)) = []"
  using assms
  by (auto simp: clearOngoingStep_def push_step_def validate_step_def has_geometry_def
      DrawStep_default_def split_beta)

lemma draw_merge_example:
  "m_steps
     (draw example_env (Some (map example_vertex [3, 4])) 2 Points (example_states (Some 7))
        (draw example_env (Some (map example_vertex [0, 1, 2])) 3 Points
           (example_states (Some 7)) example_target)) = [] \<and>
   elements (m_currentStep
     (draw example_env (Some (map example_vertex [3, 4])) 2 Points (example_states (Some 7))
        (draw example_env (Some (map example_vertex [0, 1, 2])) 3 Points
           (example_states (Some 7)) example_target))) = [0, 1, 2, 3, 4] \<and>
   length (vertices (m_currentStep
     (draw example_env (Some (map example_vertex [3, 4])) 2 Points (example_states (Some 7))
        (draw example_env (Some (map example_vertex [0, 1, 2])) 3 Points
           (example_states (Some 7)) example_target)))) = 5 * 8"
  by code_simp

lemma switch_state_opens_fresh_batch:
  assumes "\<not> StepState_eq (state (m_currentStep rt)) new_state"
    and "vertices (m_currentStep rt) = [] \<or> elements (m_currentStep rt) \<noteq> []"
  shows "vertices (m_currentStep (switch_state env new_state rt)) = []"
  using assms clearOngoingStep_leaves_no_vertices [of rt env]
  by (simp add: switch_state_def Let_def)

subsection \<open>The cache hit\<close>

text \<open>
  Claim C1.  When the open step is closed while the cursor is inside the cached sequence
  and the cached step at the cursor compares equal to it (state, vertex vector and
  element vector), \<^verbatim>\<open>clearOngoingStep\<close> changes nothing but the open step and the
  cursor: the cached sequence with its object names stays as it is, the log of OpenGL
  calls gets no entry (no upload, no deletion), the open step is replaced by an empty
  default step, and the cursor \<open>j\<close> ends beyond its old position, exactly past the run
  of overruled steps that follows the matched entry.
\<close>

theorem clearOngoingStep_cache_hit:
  assumes "m_stepsIdx rt < length (m_steps rt)"
    and "step_matches env (m_steps rt ! m_stepsIdx rt) (m_currentStep rt)"
  shows "\<exists>j. clearOngoingStep env rt = rt\<lparr>m_currentStep := DrawStep_default env, m_stepsIdx := j\<rparr>
           \<and> m_steps (clearOngoingStep env rt) = m_steps rt
           \<and> gl (clearOngoingStep env rt) = gl rt
           \<and> vertices (m_currentStep (clearOngoingStep env rt)) = []
           \<and> elements (m_currentStep (clearOngoingStep env rt)) = []
           \<and> m_stepsIdx rt + 1 \<le> j \<and> j \<le> length (m_steps rt)
           \<and> (\<forall>k. m_stepsIdx rt + 1 \<le> k \<and> k < j \<longrightarrow> overruled (m_steps rt ! k))
           \<and> (j < length (m_steps rt) \<longrightarrow> \<not> overruled (m_steps rt ! j))"
proof -
  define j where "j = skip_overruled (m_steps rt) (m_stepsIdx rt + 1)"
  have v: "validate_step env rt = rt\<lparr>m_currentStep := DrawStep_default env, m_stepsIdx := j\<rparr>"
    using assms by (simp add: validate_step_def j_def)
  have c: "clearOngoingStep env rt = rt\<lparr>m_currentStep := DrawStep_default env, m_stepsIdx := j\<rparr>"
    by (simp add: clearOngoingStep_def v push_step_def)
  have ge: "m_stepsIdx rt + 1 \<le> j"
    unfolding j_def by (rule skip_overruled_ge)
  have le: "j \<le> length (m_steps rt)"
    unfolding j_def using assms(1) by (intro skip_overruled_le) simp
  have run: "\<forall>k. m_stepsIdx rt + 1 \<le> k \<and> k < j \<longrightarrow> overruled (m_steps rt ! k)"
    unfolding j_def using skip_overruled_skipped by blast
  have stop: "j < length (m_steps rt) \<longrightarrow> \<not> overruled (m_steps rt ! j)"
    unfolding j_def using skip_overruled_stop by blast
  have d: "vertices (DrawStep_default env) = []" "elements (DrawStep_default env) = []"
    by (simp_all add: DrawStep_default_def)
  show ?thesis
    using c ge le run stop d by (intro exI [of _ j]) simp
qed

theorem clearOngoingStep_cache_hit_witness:
  "m_stepsIdx example_hit < length (m_steps example_hit) \<and>
   step_matches example_env (m_steps example_hit ! m_stepsIdx example_hit)
     (m_currentStep example_hit) \<and>
   m_steps (clearOngoingStep example_env example_hit) = m_steps example_hit \<and>
   gl (clearOngoingStep example_env example_hit) = gl example_hit \<and>
   m_stepsIdx (clearOngoingStep example_env example_hit) = 3"
proof -
  have h1: "m_stepsIdx example_hit < length (m_steps example_hit)"
    by (simp add: example_hit_def)
  have h2: "step_matches example_env (m_steps example_hit ! m_stepsIdx example_hit)
     (m_currentStep example_hit)"
    by code_simp
  have idx: "m_stepsIdx (clearOngoingStep example_env example_hit) = 3"
    by code_simp
  from clearOngoingStep_cache_hit [OF h1 h2]
  have "m_steps (clearOngoingStep example_env example_hit) = m_steps example_hit \<and>
        gl (clearOngoingStep example_env example_hit) = gl example_hit"
    by blast
  with h1 h2 idx show ?thesis by simp
qed

subsection \<open>Calls that are ignored\<close>

text \<open>
  Claim C8.  The minimum vertex count is 1 for \<open>Points\<close>, 2 for \<open>Lines\<close> and
  \<open>LineStrip\<close>, 3 for \<open>Triangles\<close>, \<open>TriangleStrip\<close> and \<open>TriangleFan\<close>, and it is
  looked up for the requested type.  A call of \<^verbatim>\<open>draw\<close> with fewer vertices
  returns the target as it was: open step and its state, cached sequence, cursor and the
  log of OpenGL calls are all unchanged.
\<close>

theorem draw_below_minimum_is_noop:
  "minVertexCount Points = 1 \<and> minVertexCount Lines = 2 \<and> minVertexCount LineStrip = 2 \<and>
   minVertexCount Triangles = 3 \<and> minVertexCount TriangleStrip = 3 \<and>
   minVertexCount TriangleFan = 3 \<and>
   (vertexCount < minVertexCount ptype \<longrightarrow>
      draw env vertices_ptr vertexCount ptype states rt = rt)"
  by (simp add: minVertexCount_def draw_def split: option.split)

theorem draw_below_minimum_is_noop_witness:
  "(1::nat) < minVertexCount Lines \<and>
   draw example_env (Some [example_vertex 0]) 1 Lines (example_states None) example_target
     = example_target"
  using draw_below_minimum_is_noop
    [of 1 Lines example_env "Some [example_vertex 0]" "example_states None" example_target]
  by simp

text \<open>
  Claim C10.  A call of \<^verbatim>\<open>draw\<close> whose vertex pointer is null returns the target as it
  was, for every count, primitive type and render states, also when the count reaches
  the minimum of the type.
\<close>

theorem draw_null_pointer_is_noop:
  "draw env None vertexCount ptype states rt = rt"
  by (simp add: draw_def)

subsection \<open>Flushing twice\<close>

text \<open>
  Claim C3, as stated, fails on the code in its last clause: \<^verbatim>\<open>flush\<close> does not
  leave the cached sequence unchanged in general, because it begins with
  \<^verbatim>\<open>clearOngoingStep()\<close>, which stores a pending open batch.  One point drawn on a
  fresh target and then flushed turns the empty cache into a cache of one batch.
\<close>

theorem flush_stores_pending_batch_counterexample:
  "m_steps example_pending = [] \<and>
   has_geometry (m_currentStep example_pending) \<and>
   length (m_steps (flush example_env example_pending)) = 1 \<and>
   m_steps (flush example_env example_pending) \<noteq> m_steps example_pending"
  by code_simp

text \<open>
  Claim C3, amended.  \<^verbatim>\<open>flush\<close> closes the open step, sets the cursor to 0 and
  replays the cached sequence: the reset and the replay do not clear the sequence but
  leave it as the closing of the open step left it, and a \<^verbatim>\<open>flush\<close> on a target
  whose open step has no geometry leaves the cached sequence unchanged and uploads
  nothing.  A second \<^verbatim>\<open>flush\<close> that follows with no draw call in between leaves
  the cached sequence unchanged, makes exactly the calls \<open>replay\<close> of the same
  shader and the same sequence again (so the same draw invocations in the same order
  as the first one), and no upload: the number of uploads in the log does not grow.
  The cursor is 0 after either call.
\<close>

theorem flush_twice_replays_without_upload:
  "m_stepsIdx (flush env rt) = 0 \<and>
   m_steps (flush env rt) = m_steps (clearOngoingStep env rt) \<and>
   gl (flush env rt) =
     gl (clearOngoingStep env rt) @ replay env (m_defaultShader rt) (m_steps (flush env rt)) \<and>
   m_stepsIdx (flush env (flush env rt)) = 0 \<and>
   m_steps (flush env (flush env rt)) = m_steps (flush env rt) \<and>
   gl (flush env (flush env rt)) =
     gl (flush env rt) @ replay env (m_defaultShader rt) (m_steps (flush env rt)) \<and>
   uploads (gl (flush env (flush env rt))) = uploads (gl (flush env rt)) \<and>
   (\<not> has_geometry (m_currentStep rt) \<longrightarrow>
      m_steps (flush env rt) = m_steps rt \<and> uploads (gl (flush env rt)) = uploads (gl rt))"
proof -
  let ?c = "clearOngoingStep env rt"
  let ?f = "flush env rt"
  have f: "?f = ?c\<lparr>m_stepsIdx := 0, active := True,
                     gl := gl ?c @ replay env (m_defaultShader rt) (m_steps ?c)\<rparr>"
    by (rule flush_eq)
  have cur: "m_currentStep ?f = m_currentStep ?c"
    by (subst f) simp
  have "\<not> has_geometry (m_currentStep ?c)"
    by (rule clearOngoingStep_no_geometry_after)
  with cur have empty: "\<not> has_geometry (m_currentStep ?f)"
    by simp
  have steps1: "m_steps ?f = m_steps ?c"
    by (subst f) simp
  have gl1: "gl ?f = gl ?c @ replay env (m_defaultShader rt) (m_steps ?f)"
    by (simp add: steps1) (subst f, simp)
  have idx1: "m_stepsIdx ?f = 0"
    by (subst f) simp
  have sh: "m_defaultShader ?f = m_defaultShader rt"
    by (subst f) simp
  have steps2: "m_steps (clearOngoingStep env ?f) = m_steps ?f"
    and gl2: "gl (clearOngoingStep env ?f) = gl ?f"
    using clearOngoingStep_without_geometry [OF empty] by simp_all
  have f2: "flush env ?f =
      (clearOngoingStep env ?f)\<lparr>m_stepsIdx := 0, active := True,
         gl := gl (clearOngoingStep env ?f) @
               replay env (m_defaultShader ?f) (m_steps (clearOngoingStep env ?f))\<rparr>"
    by (rule flush_eq)
  have steps3: "m_steps (flush env ?f) = m_steps ?f"
    by (subst f2) (simp add: steps2)
  have gl3: "gl (flush env ?f) = gl ?f @ replay env (m_defaultShader rt) (m_steps ?f)"
    by (subst f2) (simp add: steps2 gl2 sh)
  have idx3: "m_stepsIdx (flush env ?f) = 0"
    by (subst f2) simp
  have up: "uploads (gl (flush env ?f)) = uploads (gl ?f)"
    by (simp add: gl3)
  have quiet: "m_steps ?f = m_steps rt \<and> uploads (gl ?f) = uploads (gl rt)"
    if "\<not> has_geometry (m_currentStep rt)"
    using clearOngoingStep_without_geometry [OF that, of env]
    by (simp add: steps1 gl1)
  from idx1 steps1 gl1 idx3 steps3 gl3 up quiet show ?thesis
    by blast
qed

theorem flush_twice_replays_without_upload_witness:
  "\<not> has_geometry (m_currentStep example_flushed) \<and>
   length (m_steps example_flushed) = 1 \<and>
   m_steps (flush example_env example_flushed) = m_steps example_flushed \<and>
   uploads (gl (flush example_env example_flushed)) = uploads (gl example_flushed)"
proof -
  have h: "\<not> has_geometry (m_currentStep example_flushed)"
    by code_simp
  have l: "length (m_steps example_flushed) = 1"
    by code_simp
  note general = flush_twice_replays_without_upload [of example_env example_flushed]
  from general h have
    "m_steps (flush example_env example_flushed) = m_steps example_flushed \<and>
     uploads (gl (flush example_env example_flushed)) = uploads (gl example_flushed)"
    by blast
  with h l show ?thesis by blast
qed

subsection \<open>The cache miss\<close>




subsection \<open>Index synthesis\<close>

text \<open>
  Claim C7.  Let \<open>s0\<close> be the open step into which a \<open>LineStrip\<close> call of
  \<^verbatim>\<open>draw\<close> appends (the open step after the state transition of the call) and let
  it hold \<open>n0\<close> vertices, so that vertex \<open>i\<close> of the call gets index \<open>n0 + i\<close>.
  The call appends to the element vector, for every \<open>i\<close> with \<open>0 < i\<close> in call
  order, the pair of the indices of vertex \<open>i - 1\<close> and vertex \<open>i\<close>, and appends
  to the vertex vector the eight scalars of each vertex of the call once.  A call with
  four vertices on a target whose open step is empty leaves the element vector
  \<open>[0, 1, 1, 2, 2, 3]\<close>.
\<close>

theorem draw_LineStrip_indices:
  assumes "2 \<le> vertexCount" and "vertexCount \<le> length vs"
  shows "let s0 = m_currentStep
                    (switch_state env (StepState_of (new_type_of LineStrip) states)
                       (rt\<lparr>active := True\<rparr>));
             n0 = length (vertices s0) div 8;
             s1 = m_currentStep (draw env (Some vs) vertexCount LineStrip states rt)
         in elements s1 =
              elements s0 @
              concat (map (\<lambda>i. [of_nat (n0 + i - 1), of_nat (n0 + i)]) [1..<vertexCount]) \<and>
            vertices s1 =
              vertices s0 @ concat (map (packed env states) (take vertexCount vs)) \<and>
            (vertices (m_currentStep rt) = [] \<and> elements (m_currentStep rt) = [] \<and>
             vertexCount = 4 \<longrightarrow> elements s1 = [0, 1, 1, 2, 2, 3])"
proof -
  let ?rt1 = "switch_state env (StepState_of (new_type_of LineStrip) states)
                (rt\<lparr>active := True\<rparr>)"
  let ?s0 = "m_currentStep ?rt1"
  let ?n0 = "length (vertices ?s0) div 8"
  let ?s1 = "m_currentStep (draw env (Some vs) vertexCount LineStrip states rt)"
  have "minVertexCount LineStrip \<le> vertexCount"
    using assms(1) by (simp add: minVertexCount_def)
  then have s1: "?s1 = loop_LineStrip env states 0 (take vertexCount vs) ?s0"
    by (simp add: draw_eq append_geometry_def)
  have len: "length (take vertexCount vs) = vertexCount"
    using assms(2) by simp
  have "elements ?s1 = elements ?s0 @
      concat (map (\<lambda>j. [of_nat (?n0 + j) - 1, of_nat (?n0 + j)]) [1..<vertexCount])"
    using assms(2) by (simp add: s1 loop_LineStrip_elements min.absorb2)
  also have "map (\<lambda>j. [of_nat (?n0 + j) - 1, of_nat (?n0 + j) :: 32 word]) [1..<vertexCount] =
      map (\<lambda>i. [of_nat (?n0 + i - 1), of_nat (?n0 + i)]) [1..<vertexCount]"
    by (rule map_cong) (simp_all add: of_nat_pred)
  finally have el: "elements ?s1 = elements ?s0 @
      concat (map (\<lambda>i. [of_nat (?n0 + i - 1), of_nat (?n0 + i)]) [1..<vertexCount])" .
  have ve: "vertices ?s1 = vertices ?s0 @ concat (map (packed env states) (take vertexCount vs))"
    by (simp add: s1 loop_LineStrip_vertices)
  have ex: "elements ?s1 = [0, 1, 1, 2, 2, 3]"
    if e: "vertices (m_currentStep rt) = [] \<and> elements (m_currentStep rt) = [] \<and>
           vertexCount = 4"
  proof -
    from e have "vertices ?s0 = [] \<and> elements ?s0 = []"
      by (intro switch_state_empty) simp_all
    moreover have "[1..<4::nat] = [1, 2, 3]"
      by code_simp
    ultimately show ?thesis
      using el e by simp
  qed
  from el ve ex show ?thesis
    by (simp add: Let_def)
qed

theorem draw_LineStrip_indices_witness:
  "(2::nat) \<le> 4 \<and> 4 \<le> length (map example_vertex [0, 1, 2, 3]) \<and>
   elements (m_currentStep
     (draw example_env (Some (map example_vertex [0, 1, 2, 3])) 4 LineStrip
        (example_states (Some 7)) example_target)) = [0, 1, 1, 2, 2, 3] \<and>
   length (vertices (m_currentStep
     (draw example_env (Some (map example_vertex [0, 1, 2, 3])) 4 LineStrip
        (example_states (Some 7)) example_target))) = 32"
proof -
  have h1: "(2::nat) \<le> 4" by simp
  have h2: "4 \<le> length (map example_vertex [0, 1, 2, 3])" by simp
  have e: "vertices (m_currentStep example_target) = [] \<and>
           elements (m_currentStep example_target) = []"
    by code_simp
  have l: "length (vertices (m_currentStep
     (draw example_env (Some (map example_vertex [0, 1, 2, 3])) 4 LineStrip
        (example_states (Some 7)) example_target))) = 32"
    by code_simp
  note general = draw_LineStrip_indices
    [OF h1 h2, of example_env "example_states (Some 7)" example_target, unfolded Let_def]
  have "elements (m_currentStep
     (draw example_env (Some (map example_vertex [0, 1, 2, 3])) 4 LineStrip
        (example_states (Some 7)) example_target)) = [0, 1, 1, 2, 2, 3]"
    by (rule general [THEN conjunct2, THEN conjunct2, THEN mp]) (simp add: e)
  with h1 h2 l show ?thesis by blast
qed

text \<open>
  Claim C6, as stated, fails on the code.  The root the code uses is computed at the
  start of each call (\<^verbatim>\<open>auto root = verts.size() / (2 + 4 + 2)\<close>): it is the index of
  the first vertex of the call, not of the first vertex of the batch.  A second
  \<open>TriangleFan\<close> call merged into a batch of four vertices appends \<open>[4, 6, 7]\<close>,
  with root 4, where the claim has triples with root 0.  Moreover the code emits a
  triple only for \<^verbatim>\<open>i > 2\<close>, so five vertices drawn into an empty batch give
  \<open>[0, 2, 3, 0, 3, 4]\<close> and not the claimed \<open>[0, 1, 2, 0, 2, 3, 0, 3, 4]\<close>.
\<close>

theorem draw_TriangleFan_root_counterexample:
  "elements (m_currentStep example_fan) = [0, 2, 3] \<and>
   length (vertices (m_currentStep example_fan)) div 8 = 4 \<and>
   elements (m_currentStep example_two_fans) = [0, 2, 3, 4, 6, 7] \<and>
   elements (m_currentStep example_fan) @ claimed_TriangleFan_elements 4 4 =
     [0, 2, 3, 0, 3, 4, 0, 4, 5, 0, 5, 6, 0, 6, 7] \<and>
   elements (m_currentStep example_two_fans) \<noteq>
     elements (m_currentStep example_fan) @ claimed_TriangleFan_elements 4 4 \<and>
   claimed_TriangleFan_elements 0 5 = [0, 1, 2, 0, 2, 3, 0, 3, 4] \<and>
   elements (m_currentStep
     (draw example_env (Some (map example_vertex [0, 1, 2, 3, 4])) 5 TriangleFan
        (example_states (Some 7)) example_target)) = [0, 2, 3, 0, 3, 4]"
  by code_simp

text \<open>
  Claim C6, amended.  Let \<open>s0\<close> be the open step into which a \<open>TriangleFan\<close> call of
  \<^verbatim>\<open>draw\<close> appends and \<open>root\<close> the number of vertices it holds, which is the
  index the first vertex of the call gets (0 when the open step was empty).  For every
  vertex \<open>i\<close> of the call with \<open>2 < i\<close>, in call order, the call appends to the
  element vector the triple of \<open>root\<close>, the index of vertex \<open>i - 1\<close> and the index
  of vertex \<open>i\<close>; before these triples it appends nothing else, except possibly the
  triple for \<open>i = 2\<close>, on which the statement is silent.  The vertex vector receives the
  eight scalars of each vertex of the call once.  Five vertices drawn into an empty
  open step end the element vector with \<open>[0, 2, 3, 0, 3, 4]\<close>.
\<close>

theorem draw_TriangleFan_indices:
  assumes "3 \<le> vertexCount" and "vertexCount \<le> length vs"
  shows "let s0 = m_currentStep
                    (switch_state env (StepState_of (new_type_of TriangleFan) states)
                       (rt\<lparr>active := True\<rparr>));
             root = length (vertices s0) div 8;
             s1 = m_currentStep (draw env (Some vs) vertexCount TriangleFan states rt)
         in (\<exists>pre. (pre = [] \<or> pre = [of_nat root, of_nat (root + 1), of_nat (root + 2)]) \<and>
               elements s1 =
                 elements s0 @ pre @
                 concat (map (\<lambda>i. [of_nat root, of_nat (root + i - 1), of_nat (root + i)])
                           [3..<vertexCount])) \<and>
            vertices s1 =
              vertices s0 @ concat (map (packed env states) (take vertexCount vs)) \<and>
            (vertices (m_currentStep rt) = [] \<and> elements (m_currentStep rt) = [] \<longrightarrow>
               root = 0 \<and>
               (vertexCount = 5 \<longrightarrow>
                  (\<exists>pre. (pre = [] \<or> pre = [0, 1, 2]) \<and>
                     elements s1 = pre @ [0, 2, 3, 0, 3, 4])))"
proof -
  let ?rt1 = "switch_state env (StepState_of (new_type_of TriangleFan) states)
                (rt\<lparr>active := True\<rparr>)"
  let ?s0 = "m_currentStep ?rt1"
  let ?root = "length (vertices ?s0) div 8"
  let ?s1 = "m_currentStep (draw env (Some vs) vertexCount TriangleFan states rt)"
  let ?T = "concat (map (\<lambda>i. [of_nat ?root, of_nat (?root + i - 1), of_nat (?root + i) :: 32 word])
                      [3..<vertexCount])"
  have "minVertexCount TriangleFan \<le> vertexCount"
    using assms(1) by (simp add: minVertexCount_def)
  then have s1: "?s1 = loop_TriangleFan env states ?root 0 (take vertexCount vs) ?s0"
    by (simp add: draw_eq append_geometry_def)
  have "elements ?s1 = elements ?s0 @
      concat (map (\<lambda>j. [of_nat ?root, of_nat (?root + j) - 1, of_nat (?root + j)])
                [3..<vertexCount])"
    using assms(2) by (simp add: s1 loop_TriangleFan_elements min.absorb2)
  also have "map (\<lambda>j. [of_nat ?root, of_nat (?root + j) - 1, of_nat (?root + j) :: 32 word])
                [3..<vertexCount] =
      map (\<lambda>i. [of_nat ?root, of_nat (?root + i - 1), of_nat (?root + i)]) [3..<vertexCount]"
    by (rule map_cong) (simp_all add: of_nat_pred)
  finally have el: "elements ?s1 = elements ?s0 @ [] @ ?T"
    by simp
  then have ex: "\<exists>pre. (pre = [] \<or> pre = [of_nat ?root, of_nat (?root + 1), of_nat (?root + 2)]) \<and>
      elements ?s1 = elements ?s0 @ pre @ ?T"
    by blast
  have ve: "vertices ?s1 = vertices ?s0 @ concat (map (packed env states) (take vertexCount vs))"
    by (simp add: s1 loop_TriangleFan_vertices)
  have em: "?root = 0 \<and>
      (vertexCount = 5 \<longrightarrow>
         (\<exists>pre. (pre = [] \<or> pre = [0, 1, 2]) \<and> elements ?s1 = pre @ [0, 2, 3, 0, 3, 4]))"
    if e: "vertices (m_currentStep rt) = [] \<and> elements (m_currentStep rt) = []"
  proof -
    from e have z: "vertices ?s0 = [] \<and> elements ?s0 = []"
      by (intro switch_state_empty) simp_all
    have u: "[3..<5::nat] = [3, 4]"
      by code_simp
    have "elements ?s1 = [] @ [0, 2, 3, 0, 3, 4]" if "vertexCount = 5"
      using el z that by (simp add: u)
    then show ?thesis
      using z by auto
  qed
  from ex ve em show ?thesis
    unfolding Let_def by blast
qed

theorem draw_TriangleFan_indices_witness:
  "(3::nat) \<le> 4 \<and> 4 \<le> length (map example_vertex [4, 5, 6, 7]) \<and>
   length (vertices (m_currentStep example_fan)) div 8 = 4 \<and>
   (\<exists>pre. (pre = [] \<or> pre = [4, 5, 6]) \<and>
      elements (m_currentStep example_two_fans) = [0, 2, 3] @ pre @ [4, 6, 7]) \<and>
   length (vertices (m_currentStep example_two_fans)) = 64"
proof -
  have h1: "(3::nat) \<le> 4" by simp
  have h2: "4 \<le> length (map example_vertex [4, 5, 6, 7])" by simp
  let ?s0 = "m_currentStep
     (switch_state example_env (StepState_of (new_type_of TriangleFan) (example_states (Some 7)))
        (example_fan\<lparr>active := True\<rparr>))"
  have s0: "elements ?s0 = [0, 2, 3]" "length (vertices ?s0) div 8 = 4"
    by code_simp+
  have r: "length (vertices (m_currentStep example_fan)) div 8 = 4"
    by code_simp
  have l: "length (vertices (m_currentStep example_two_fans)) = 64"
    by code_simp
  have u: "[3..<4::nat] = [3]"
    by code_simp
  note general = draw_TriangleFan_indices
    [OF h1 h2, of example_env "example_states (Some 7)" example_fan, unfolded Let_def,
     THEN conjunct1, folded example_two_fans_def, unfolded s0 u]
  then have "\<exists>pre. (pre = [] \<or> pre = [4, 5, 6]) \<and>
      elements (m_currentStep example_two_fans) = [0, 2, 3] @ pre @ [4, 6, 7]"
    by simp
  with h1 h2 r l show ?thesis by blast
qed

subsection \<open>The state transition and the stored primitive type\<close>

text \<open>
  Claim C5 says that the primitive type stored in the new step state is \<open>Lines\<close> for a
  requested \<open>LineStrip\<close>, \<open>Triangles\<close> for a requested \<open>TriangleStrip\<close> or
  \<open>TriangleFan\<close>, and the requested type for \<open>Points\<close>, \<open>Lines\<close> and
  \<open>Triangles\<close>.  The code stores \<open>Lines\<close> for \<open>LineStrip\<close>, but for
  \<open>TriangleStrip\<close> and \<open>TriangleFan\<close> it stores the requested type itself: the
  statement \<^verbatim>\<open>new_type == Triangles;\<close> compares where an assignment was meant.  The
  theorem evaluates \<^verbatim>\<open>draw\<close> on a fresh target for the three types.
\<close>

theorem draw_stores_requested_strip_and_fan_type:
  "st_type (state (m_currentStep
     (draw example_env (Some (map example_vertex [0, 1, 2, 3])) 4 TriangleFan
        (example_states (Some 7)) example_target))) = TriangleFan \<and>
   st_type (state (m_currentStep
     (draw example_env (Some (map example_vertex [0, 1, 2, 3])) 4 TriangleStrip
        (example_states (Some 7)) example_target))) = TriangleStrip \<and>
   st_type (state (m_currentStep
     (draw example_env (Some (map example_vertex [0, 1, 2, 3])) 4 LineStrip
        (example_states (Some 7)) example_target))) = Lines \<and>
   new_type_of TriangleFan \<noteq> Triangles \<and> new_type_of TriangleStrip \<noteq> Triangles"
  by code_simp

text \<open>
  Claim C4 says that a raw-vertex call of \<^verbatim>\<open>draw\<close> extends the open batch if and only
  if its step state equals that of the open batch, and that otherwise the open batch is
  closed and handed to the cache and the geometry of the call goes into a new batch.
  The code breaks this when the open batch has vertices but no elements, which a
  \<open>TriangleFan\<close> call with exactly three vertices leaves behind (no triple is emitted
  for \<^verbatim>\<open>i = 2\<close>): \<^verbatim>\<open>clearOngoingStep\<close> then neither stores nor resets the open
  step.  In the run evaluated here a \<open>Points\<close> call of two vertices with another texture follows such
  a fan; the step states differ, yet nothing reaches the cache or OpenGL, and the open
  step ends with the new state, all five vertices and the element vector \<open>[3, 4]\<close>:
  the two points were appended behind the three vertices of the fan.
\<close>

theorem draw_state_change_keeps_stale_vertices:
  "\<not> StepState_eq (StepState_of (new_type_of TriangleFan) (example_states (Some 7)))
       (StepState_of (new_type_of Points) (example_states (Some 8))) \<and>
   m_steps example_fan_then_points = [] \<and>
   gl example_fan_then_points = [] \<and>
   state (m_currentStep example_fan_then_points) =
     StepState_of Points (example_states (Some 8)) \<and>
   vertices (m_currentStep example_fan_then_points) =
     concat (map (packed example_env (example_states (Some 7)))
               (map example_vertex [0, 1, 2])) @
     concat (map (packed example_env (example_states (Some 8)))
               (map example_vertex [8, 9])) \<and>
   elements (m_currentStep example_fan_then_points) = [3, 4]"
  by code_simp

subsection \<open>Drawing a vertex buffer\<close>

text \<open>
  What \<^verbatim>\<open>draw\<close> of a vertex buffer does on any target.  The count is clamped to
  \<open>m_size - firstVertex\<close>.  Without a native handle, or with a clamped count of 0,
  the call returns the target as it was.  Otherwise the call closes the open step with
  \<^verbatim>\<open>clearOngoingStep\<close>, whatever its state, and stores one overruled step with the
  handle of the buffer and the step state of the call behind the last cached step; the
  cursor is incremented once, the log of OpenGL calls gets no entry beyond those of the
  close, and the open step is an empty default step afterwards.
\<close>

lemma draw_VertexBuffer_effect:
  "(m_buffer vb = 0 \<or> min vertexCount (m_size vb - firstVertex) = 0 \<longrightarrow>
      draw_VertexBuffer env vb firstVertex vertexCount states rt = rt) \<and>
   (m_buffer vb \<noteq> 0 \<and> min vertexCount (m_size vb - firstVertex) \<noteq> 0 \<longrightarrow>
      (let rt1 = clearOngoingStep env (rt\<lparr>active := True\<rparr>);
           rt2 = draw_VertexBuffer env vb firstVertex vertexCount states rt
       in (\<exists>step. m_steps rt2 = m_steps rt1 @ [step] \<and>
             overruled step \<and> vbo step = m_buffer vb \<and>
             state step = StepState_of (m_primitiveType vb) states \<and>
             (vertices (m_currentStep rt) = [] \<or> elements (m_currentStep rt) \<noteq> [] \<longrightarrow>
                vertices step =
                  [of_size env firstVertex,
                   of_size env (min vertexCount (m_size vb - firstVertex))])) \<and>
          m_stepsIdx rt2 = m_stepsIdx rt1 + 1 \<and>
          gl rt2 = gl rt1 \<and>
          m_currentStep rt2 = DrawStep_default env))"
proof (intro conjI impI)
  assume "m_buffer vb = 0 \<or> min vertexCount (m_size vb - firstVertex) = 0"
  then show "draw_VertexBuffer env vb firstVertex vertexCount states rt = rt"
    by (auto simp: draw_VertexBuffer_def Let_def)
next
  assume h: "m_buffer vb \<noteq> 0 \<and> min vertexCount (m_size vb - firstVertex) \<noteq> 0"
  let ?n = "min vertexCount (m_size vb - firstVertex)"
  let ?rt1 = "clearOngoingStep env (rt\<lparr>active := True\<rparr>)"
  let ?step = "(m_currentStep ?rt1)
       \<lparr>state := StepState_of (m_primitiveType vb) states, vbo := m_buffer vb,
        overruled := True,
        vertices := vertices (m_currentStep ?rt1) @ [of_size env firstVertex, of_size env ?n]\<rparr>"
  let ?rt2 = "draw_VertexBuffer env vb firstVertex vertexCount states rt"
  from h have "\<not> firstVertex > m_size vb"
    by auto
  with h have rt2: "?rt2 = ?rt1\<lparr>m_steps := m_steps ?rt1 @ [?step],
      m_stepsIdx := m_stepsIdx ?rt1 + 1, m_currentStep := DrawStep_default env\<rparr>"
    by (auto simp: draw_VertexBuffer_def Let_def ensure_active_eq)
  have v: "vertices ?step = [of_size env firstVertex, of_size env ?n]"
    if "vertices (m_currentStep rt) = [] \<or> elements (m_currentStep rt) \<noteq> []"
  proof -
    from that have "vertices (m_currentStep ?rt1) = []"
      by (intro clearOngoingStep_leaves_no_vertices) simp
    then show ?thesis by simp
  qed
  have "m_steps ?rt2 = m_steps ?rt1 @ [?step]"
    by (subst rt2) simp
  moreover have "overruled ?step" "vbo ?step = m_buffer vb"
    "state ?step = StepState_of (m_primitiveType vb) states"
    by simp_all
  ultimately have ex: "\<exists>step. m_steps ?rt2 = m_steps ?rt1 @ [step] \<and>
      overruled step \<and> vbo step = m_buffer vb \<and>
      state step = StepState_of (m_primitiveType vb) states \<and>
      (vertices (m_currentStep rt) = [] \<or> elements (m_currentStep rt) \<noteq> [] \<longrightarrow>
         vertices step = [of_size env firstVertex, of_size env ?n])"
    using v by blast
  have rest: "m_stepsIdx ?rt2 = m_stepsIdx ?rt1 + 1" "gl ?rt2 = gl ?rt1"
    "m_currentStep ?rt2 = DrawStep_default env"
    by (subst rt2, simp)+
  from ex rest show "let rt1 = ?rt1; rt2 = ?rt2
       in (\<exists>step. m_steps rt2 = m_steps rt1 @ [step] \<and>
             overruled step \<and> vbo step = m_buffer vb \<and>
             state step = StepState_of (m_primitiveType vb) states \<and>
             (vertices (m_currentStep rt) = [] \<or> elements (m_currentStep rt) \<noteq> [] \<longrightarrow>
                vertices step = [of_size env firstVertex, of_size env ?n])) \<and>
          m_stepsIdx rt2 = m_stepsIdx rt1 + 1 \<and>
          gl rt2 = gl rt1 \<and>
          m_currentStep rt2 = DrawStep_default env"
    unfolding Let_def by blast
qed

lemma draw_VertexBuffer_effect_example:
  "m_buffer example_buffer \<noteq> 0 \<and> min 100 (m_size example_buffer - 2) \<noteq> 0 \<and>
   (\<exists>step. m_steps (draw_VertexBuffer example_env example_buffer 2 100
               (example_states None) example_target) = [step] \<and>
      overruled step \<and> vbo step = 9 \<and> vertices step = [2, 8]) \<and>
   m_stepsIdx (draw_VertexBuffer example_env example_buffer 2 100
      (example_states None) example_target) = 1 \<and>
   (m_buffer (example_buffer\<lparr>m_buffer := 0\<rparr>) = 0 \<or>
    min 100 (m_size (example_buffer\<lparr>m_buffer := 0\<rparr>) - 2) = 0) \<and>
   draw_VertexBuffer example_env (example_buffer\<lparr>m_buffer := 0\<rparr>) 2 100
     (example_states None) example_target = example_target"
proof -
  let ?rt1 = "clearOngoingStep example_env (example_target\<lparr>active := True\<rparr>)"
  let ?rt2 = "draw_VertexBuffer example_env example_buffer 2 100
      (example_states None) example_target"
  have h: "m_buffer example_buffer \<noteq> 0 \<and> min 100 (m_size example_buffer - 2) \<noteq> 0"
    by code_simp
  have c: "m_steps ?rt1 = []" "m_stepsIdx ?rt1 = 0"
    by code_simp+
  have e: "vertices (m_currentStep example_target) = [] \<or>
           elements (m_currentStep example_target) \<noteq> []"
    by code_simp
  have n: "of_size example_env 2 = 2"
    "of_size example_env (min 100 (m_size example_buffer - 2)) = 8"
    "m_buffer example_buffer = 9"
    by code_simp+
  note general = draw_VertexBuffer_effect
    [where vb = example_buffer and vertexCount = 100 and firstVertex = 2
       and env = example_env and states = "example_states None" and rt = example_target,
     THEN conjunct2, THEN mp, OF h, unfolded Let_def]
  from general [THEN conjunct1] e obtain step where
    "m_steps ?rt2 = m_steps ?rt1 @ [step]" "overruled step"
    "vbo step = m_buffer example_buffer"
    "vertices step = [of_size example_env 2,
       of_size example_env (min 100 (m_size example_buffer - 2))]"
    by blast
  then have ex: "\<exists>step. m_steps ?rt2 = [step] \<and> overruled step \<and> vbo step = 9 \<and>
      vertices step = [2, 8]"
    by (simp add: c n)
  from general [THEN conjunct2, THEN conjunct1] have idx: "m_stepsIdx ?rt2 = 1"
    by (simp add: c)
  have z: "m_buffer (example_buffer\<lparr>m_buffer := 0\<rparr>) = 0 \<or>
    min 100 (m_size (example_buffer\<lparr>m_buffer := 0\<rparr>) - 2) = 0"
    by simp
  note noop = draw_VertexBuffer_effect
    [where vb = "example_buffer\<lparr>m_buffer := 0\<rparr>" and vertexCount = 100 and firstVertex = 2
       and env = example_env and states = "example_states None" and rt = example_target,
     THEN conjunct1, THEN mp, OF z]
  from h ex idx z noop show ?thesis
    by blast
qed


text \<open>
  Claim C9 says that a draw of a vertex buffer with a native handle and a clamped count
  above 0 closes the open batch and sends exactly one overruled step into the cache at
  the next position, advancing the cursor by one.  The code stores the overruled step
  with \<^verbatim>\<open>m_steps.emplace_back\<close> at the end of the sequence and increments the cursor,
  without removing the cached steps from the cursor on, as the path that stores a batch
  in \<^verbatim>\<open>clearOngoingStep\<close> does before it appends.  The theorem evaluates two runs.

  In the first a second frame repeats the first of two cached batches and then draws
  the buffer: the close is a cache hit that leaves the cursor at 1, the overruled step
  is stored at index 2, the cached batch at index 1 stays, and the cursor ends at 2,
  past that stale batch and on the overruled step.

  In the second the same frame (a point, the buffer, another point) is submitted three
  times.  The first frame leaves the cache batch, overruled step, batch with two
  uploads.  The second, unchanged, frame stores a second overruled step behind them,
  erases it again when the last batch is closed, which deletes the buffer of the
  caller (\<^verbatim>\<open>glDeleteBuffers\<close> on handle 9), and uploads the last batch once more; the
  cache has four steps then and five after the third frame.
\<close>

theorem draw_VertexBuffer_leaves_stale_entries:
  "length (m_steps example_redraw) = 2 \<and>
   m_stepsIdx example_redraw = 0 \<and>
   m_stepsIdx (clearOngoingStep example_env example_redraw) = 1 \<and>
   length (m_steps (draw_VertexBuffer example_env example_buffer 2 100
      (example_states None) example_redraw)) = 3 \<and>
   m_steps (draw_VertexBuffer example_env example_buffer 2 100
      (example_states None) example_redraw) ! 1 = m_steps example_redraw ! 1 \<and>
   \<not> overruled (m_steps (draw_VertexBuffer example_env example_buffer 2 100
      (example_states None) example_redraw) ! 1) \<and>
   overruled (m_steps (draw_VertexBuffer example_env example_buffer 2 100
      (example_states None) example_redraw) ! 2) \<and>
   m_stepsIdx (draw_VertexBuffer example_env example_buffer 2 100
      (example_states None) example_redraw) = 2 \<and>
   map overruled (m_steps (example_buffer_frame example_target)) = [False, True, False] \<and>
   uploads (gl (example_buffer_frame example_target)) = 2 \<and>
   map overruled (m_steps (example_buffer_frame (example_buffer_frame example_target))) =
     [False, True, False, False] \<and>
   uploads (gl (example_buffer_frame (example_buffer_frame example_target))) = 3 \<and>
   m_buffer example_buffer = 9 \<and>
   GlDeleteBuffers 9 \<in> set (gl (example_buffer_frame (example_buffer_frame example_target))) \<and>
   map overruled
     (m_steps (example_buffer_frame (example_buffer_frame
        (example_buffer_frame example_target)))) = [False, True, False, False, True]"
  by code_simp


end
